theory Spec2Isabelle
  imports Main
begin

section \<open>ResourceList Item: the data the component reads\<close>

text \<open>
  The component \<^verbatim>\<open>Item\<close> of
  \<^verbatim>\<open>src/components/ResourceList/components/Item/Item.tsx\<close> is a React function
  component. Its props, the values it takes from the list context, its two pieces of
  hook state, the callbacks it memoises with \<^verbatim>\<open>React.useCallback\<close> and its event
  handlers are embedded below. A JavaScript value that may be \<^verbatim>\<open>undefined\<close> is an
  \<open>option\<close> (\<open>None\<close> is \<^verbatim>\<open>undefined\<close>); a function value is known by its identity
  only, which is all that \<^verbatim>\<open>!==\<close> and the dependency comparison of
  \<^verbatim>\<open>useCallback\<close> look at.
\<close>

type_synonym node = nat
  \<comment> \<open>the identity of a DOM element\<close>

type_synonym fn = nat
  \<comment> \<open>the identity of a function passed in by the caller\<close>

datatype callback = Noop | Fn fn
  \<comment> \<open>the value of \<^verbatim>\<open>onClick\<close> in the component's scope: the imported \<^verbatim>\<open>noop\<close>, or a
      function of the caller\<close>

text \<open>
  Modelled from the spec: the type \<^verbatim>\<open>DisableableAction\<close> is declared in
  \<^verbatim>\<open>src/types\<close>, which is not among the sources. The component never looks inside
  an action; it hands the array to \<^verbatim>\<open>buttonsFrom\<close> and \<^verbatim>\<open>ActionList\<close>.
\<close>

datatype DisableableAction = Action (content: string) (disabled: bool)

text \<open>
  Modelled from the spec: \<^verbatim>\<open>SELECT_ALL_ITEMS\<close> and the type of \<^verbatim>\<open>selectedItems\<close>
  come from \<^verbatim>\<open>ResourceList/types\<close>, which is not among the sources. The spec gives
  \<^verbatim>\<open>selectedItems\<close> as either the selected ids or a sentinel for "all items
  selected"; \<^verbatim>\<open>isSelected\<close> tells the two apart with \<^verbatim>\<open>Array.isArray\<close> and
  \<^verbatim>\<open>=== SELECT_ALL_ITEMS\<close>.
\<close>

datatype ResourceListSelectedItems = SelectedIds "string list" | SELECT_ALL_ITEMS

record Props =
  id_prop :: "string option"
  url :: "string option"
  onClick :: "callback option"
  shortcutActions :: "DisableableAction list option"
  persistActions :: "bool option"

text \<open>
  Modelled from the spec: \<^verbatim>\<open>ResourceListContextType\<close> is declared in
  \<^verbatim>\<open>ResourceList/context\<close>, which is not among the sources. The five fields are the
  ones the component destructures from \<^verbatim>\<open>React.useContext(ResourceListContext)\<close>.
\<close>

record ResourceListContextType =
  selectable :: bool
  selectMode :: bool
  loading :: bool
  onSelectionChange :: "fn option"
  selectedItems :: "ResourceListSelectedItems option"

record State =
  actionsMenuVisible :: bool
  focused :: bool
  focusedInner :: bool

definition initialState :: State where
  "initialState = \<lparr>actionsMenuVisible = False, focused = False, focusedInner = False\<rparr>"
  \<comment> \<open>the arguments of the two \<^verbatim>\<open>React.useState\<close> calls\<close>

definition onClick_scope :: "Props \<Rightarrow> callback" where
  "onClick_scope p = (case onClick p of None \<Rightarrow> Noop | Some f \<Rightarrow> f)"
  \<comment> \<open>the parameter default \<^verbatim>\<open>onClick = noop\<close>\<close>

definition persistActions_scope :: "Props \<Rightarrow> bool" where
  "persistActions_scope p = (case persistActions p of None \<Rightarrow> False | Some b \<Rightarrow> b)"
  \<comment> \<open>the parameter default \<^verbatim>\<open>persistActions = false\<close>\<close>

definition truthy :: "bool option \<Rightarrow> bool" where
  "truthy v = (v = Some True)"
  \<comment> \<open>JavaScript truthiness of a value that is \<^verbatim>\<open>undefined\<close>, \<^verbatim>\<open>false\<close> or \<^verbatim>\<open>true\<close>\<close>

definition truthy_string :: "string option \<Rightarrow> string option" where
  "truthy_string u = (case u of None \<Rightarrow> None | Some s \<Rightarrow> if s = [] then None else Some s)"
  \<comment> \<open>a string in a condition: \<^verbatim>\<open>undefined\<close> and the empty string are falsy\<close>

subsection \<open>isSelected\<close>

text \<open>
  \<^verbatim>\<open>selectedItems && ((Array.isArray(selectedItems) && selectedItems.includes(id))
  || selectedItems === SELECT_ALL_ITEMS)\<close>. With \<^verbatim>\<open>selectedItems\<close> undefined the
  expression is \<^verbatim>\<open>undefined\<close> itself; an array, also an empty one, is truthy.
\<close>

definition includes_str :: "string list \<Rightarrow> string option \<Rightarrow> bool" where
  "includes_str xs v = (case v of None \<Rightarrow> False | Some x \<Rightarrow> x \<in> set xs)"
  \<comment> \<open>\<^verbatim>\<open>Array.prototype.includes\<close> on an array of strings\<close>

definition isSelected :: "Props \<Rightarrow> ResourceListContextType \<Rightarrow> bool option" where
  "isSelected p c =
     (case selectedItems c of
        None \<Rightarrow> None
      | Some (SelectedIds xs) \<Rightarrow> Some (includes_str xs (id_prop p))
      | Some SELECT_ALL_ITEMS \<Rightarrow> Some True)"

subsection \<open>Action disclosure\<close>

definition handleActionsClick :: "State \<Rightarrow> State" where
  "handleActionsClick s = s\<lparr>actionsMenuVisible := \<not> actionsMenuVisible s\<rparr>"


section \<open>Events, the DOM and effects\<close>

text \<open>
  What the handlers read of the DOM: the ref \<^verbatim>\<open>node.current\<close> (the row's root
  \<^verbatim>\<open>div\<close>, or \<^verbatim>\<open>null\<close>), the result of \<^verbatim>\<open>node.current.querySelector('a')\<close>,
  the elements of the root's subtree (for \<^verbatim>\<open>node.current.contains(x)\<close>) and an
  element's \<^verbatim>\<open>tagName\<close>. For the delivery of a blur the DOM also says which element,
  if any, the component rendered from \<^verbatim>\<open>accessibleMarkup\<close>: the \<^verbatim>\<open>UnstyledLink\<close> of a
  row with a \<^verbatim>\<open>url\<close>, else the \<^verbatim>\<open>button\<close>. That element carries handlers of its own
  (\<^verbatim>\<open>onFocus={handleAnchorFocus}\<close>, \<^verbatim>\<open>onBlur={handleFocusedBlur}\<close>).
\<close>

record Dom =
  node_current :: "node option"
  querySelector_a :: "node option"
  subtree :: "node list"
  tagName :: "node \<Rightarrow> string"
  accessible :: "node option"

definition contains :: "Dom \<Rightarrow> node option \<Rightarrow> bool" where
  "contains d x = (case x of None \<Rightarrow> False | Some n \<Rightarrow> n \<in> set (subtree d))"
  \<comment> \<open>\<^verbatim>\<open>node.current.contains(x)\<close>: \<^verbatim>\<open>false\<close> for \<^verbatim>\<open>null\<close>, else whether \<open>x\<close> is the root
      or one of its descendants, which \<open>subtree\<close> lists\<close>

record MouseEvent =
  target :: node
  ctrlKey :: bool
  metaKey :: bool

record FocusEvent =
  focus_target :: node
  relatedTarget :: "node option"

record KeyboardEvent =
  key :: string

text \<open>
  What a handler does to the world outside the component's own state, in the order it
  does it. A call of \<^verbatim>\<open>onClick\<close> is recorded with its argument list, so that
  \<^verbatim>\<open>onClick(id)\<close> and \<^verbatim>\<open>onClick()\<close> differ.
\<close>

datatype effect =
    StopPropagation
  | OnSelectionChange fn bool "string option"
  | OnClick callback "string option list"
  | WindowOpen string string
  | AnchorClick node

datatype error = TypeError
  \<comment> \<open>calling a value that is not a function\<close>

definition call_onSelectionChange ::
    "fn option \<Rightarrow> bool \<Rightarrow> string option \<Rightarrow> error + effect list" where
  "call_onSelectionChange g v i =
     (case g of None \<Rightarrow> Inl TypeError | Some h \<Rightarrow> Inr [OnSelectionChange h v i])"

definition observable :: "effect list \<Rightarrow> effect list" where
  "observable fx = filter (\<lambda>e. case e of OnClick Noop args \<Rightarrow> False | _ \<Rightarrow> True) fx"
  \<comment> \<open>the effects left when the calls of \<^verbatim>\<open>noop\<close>, which does nothing, are dropped\<close>

definition toLowerCase :: "string \<Rightarrow> string" where
  "toLowerCase s =
     map (\<lambda>c. if (65::nat) \<le> of_char c \<and> of_char c \<le> (90::nat)
              then char_of (of_char c + (32::nat)) else c) s"
  \<comment> \<open>on ASCII letters, which is all a comparison with \<^verbatim>\<open>'a'\<close> can see\<close>

section \<open>The callbacks and what they close over\<close>

text \<open>
  Each callback is a closure over the scope of the render that created it. The records
  hold the variables of that scope the callback's body reads; a callback that calls
  another one holds that one's closure, as its scope bound it.
\<close>

record handleSelection_closure =
  hs_id :: "string option"
  hs_onSelectionChange :: "fn option"

record handleLargerSelectionArea_closure =
  la_selected :: "bool option"
  la_handleSelection :: handleSelection_closure

record handleClick_closure =
  hc_selectMode :: bool
  hc_onClick :: callback
  hc_url :: "string option"
  hc_id :: "string option"
  hc_handleLargerSelectionArea :: handleLargerSelectionArea_closure

record handleKeypress_closure =
  hk_selectMode :: bool
  hk_onClick :: callback

record handleBlur_closure =
  hb_onClick :: callback

subsection \<open>Focus\<close>

definition handleAnchorFocus :: "State \<Rightarrow> State" where
  "handleAnchorFocus s = s\<lparr>focused := True, focusedInner := False\<rparr>"

definition handleFocusedBlur :: "State \<Rightarrow> State" where
  "handleFocusedBlur s = s\<lparr>focused := True, focusedInner := True\<rparr>"

definition handleFocus :: "State \<Rightarrow> State" where
  "handleFocus s = s\<lparr>focused := True\<rparr>"

definition handleMouseDown :: "State \<Rightarrow> State" where
  "handleMouseDown s = s\<lparr>focusedInner := True\<rparr>"

definition compareEventNode :: "handleBlur_closure \<Rightarrow> Dom \<Rightarrow> FocusEvent \<Rightarrow> bool" where
  "compareEventNode f d e =
     (if hb_onClick f \<noteq> Noop
      then Some (focus_target e) = node_current d
      else toLowerCase (tagName d (focus_target e)) = ''a'')"

definition handleBlur :: "handleBlur_closure \<Rightarrow> Dom \<Rightarrow> FocusEvent \<Rightarrow> State \<Rightarrow> State" where
  "handleBlur f d e s =
     (let isInside = compareEventNode f d e in
      if node_current d = None \<or> \<not> contains d (relatedTarget e)
      then s\<lparr>focused := False\<rparr>
      else if isInside then s\<lparr>focusedInner := True\<rparr>
      else s)"

text \<open>
  A blur is delivered to the handlers on the path from its target up to the root: to
  \<^verbatim>\<open>handleFocusedBlur\<close> when the target is the row's own link or button, then to
  \<^verbatim>\<open>handleBlur\<close> on the root \<^verbatim>\<open>div\<close>. Both state updates are queued in that one
  dispatch: the first stores an object, the second is an updater function, which is
  applied to what the first stored.
\<close>

definition dispatchBlur :: "handleBlur_closure \<Rightarrow> Dom \<Rightarrow> FocusEvent \<Rightarrow> State \<Rightarrow> State" where
  "dispatchBlur f d e s =
     handleBlur f d e
       (if accessible d = Some (focus_target e) then handleFocusedBlur s else s)"

subsection \<open>Selection\<close>

definition handleSelection ::
    "handleSelection_closure \<Rightarrow> bool \<Rightarrow> State \<Rightarrow> error + effect list \<times> State" where
  "handleSelection f v s =
     (if hs_id f = None \<or> hs_onSelectionChange f = None then Inr ([], s)
      else (case call_onSelectionChange (hs_onSelectionChange f) v (hs_id f) of
              Inl err \<Rightarrow> Inl err
            | Inr fx \<Rightarrow> Inr (fx, s\<lparr>focused := True, focusedInner := True\<rparr>)))"

definition handleLargerSelectionArea ::
    "handleLargerSelectionArea_closure \<Rightarrow> MouseEvent \<Rightarrow> State \<Rightarrow> error + effect list \<times> State"
  where
  "handleLargerSelectionArea f e s =
     (case handleSelection (la_handleSelection f) (\<not> truthy (la_selected f)) s of
        Inl err \<Rightarrow> Inl err
      | Inr (fx, s') \<Rightarrow> Inr (StopPropagation # fx, s'))"

subsection \<open>Activation\<close>

definition anchor_of :: "Dom \<Rightarrow> node option" where
  "anchor_of d = (case node_current d of None \<Rightarrow> None | Some n \<Rightarrow> querySelector_a d)"
  \<comment> \<open>\<^verbatim>\<open>node.current && node.current.querySelector('a')\<close>\<close>

definition handleClick ::
    "handleClick_closure \<Rightarrow> Dom \<Rightarrow> MouseEvent \<Rightarrow> State \<Rightarrow> error + effect list \<times> State" where
  "handleClick f d e s =
     (let anchor = anchor_of d in
      if hc_selectMode f then handleLargerSelectionArea (hc_handleLargerSelectionArea f) e s
      else if anchor = Some (target e) then Inr ([], s)
      else
        (let called = (if hc_onClick f \<noteq> Noop then [OnClick (hc_onClick f) [hc_id f]] else [])
         in case truthy_string (hc_url f) of
              None \<Rightarrow> Inr (called, s)
            | Some u \<Rightarrow>
                if ctrlKey e \<or> metaKey e then Inr (called @ [WindowOpen u ''_blank''], s)
                else (case anchor of
                        None \<Rightarrow> Inr (called, s)
                      | Some a \<Rightarrow> Inr (called @ [AnchorClick a], s))))"

definition handleKeypress ::
    "handleKeypress_closure \<Rightarrow> KeyboardEvent \<Rightarrow> State \<Rightarrow> effect list \<times> State" where
  "handleKeypress f e s =
     (if key e = ''Enter'' \<and> \<not> hk_selectMode f then ([OnClick (hk_onClick f) []], s)
      else ([], s))"

section \<open>Rendering\<close>

text \<open>
  \<^verbatim>\<open>React.useCallback(fn, deps)\<close> gives \<^verbatim>\<open>fn\<close> on the first render. On a later
  render it gives the callback it stored last, unless an entry of \<^verbatim>\<open>deps\<close> differs
  (by \<^verbatim>\<open>Object.is\<close>) from the stored one; then it stores and gives the new \<^verbatim>\<open>fn\<close>.
  The dependencies here are booleans, strings, \<^verbatim>\<open>undefined\<close> and function
  identities, for which \<^verbatim>\<open>Object.is\<close> is equality.
\<close>

definition useCallback :: "'f \<Rightarrow> 'd \<Rightarrow> ('f \<times> 'd) option \<Rightarrow> 'f \<times> 'd" where
  "useCallback fn deps prev =
     (case prev of
        None \<Rightarrow> (fn, deps)
      | Some (f, ds) \<Rightarrow> if ds = deps then (f, ds) else (fn, deps))"

record Callbacks =
  cb_handleBlur :: "handleBlur_closure \<times> unit"
  cb_handleLargerSelectionArea :: "handleLargerSelectionArea_closure \<times> bool option"
  cb_handleSelection :: "handleSelection_closure \<times> string option \<times> fn option"
  cb_handleClick :: "handleClick_closure \<times> bool \<times> callback \<times> string option"
  cb_handleKeypress :: "handleKeypress_closure \<times> bool"

text \<open>
  One run of the component's body, as far as its callbacks go: \<open>prev\<close> holds the
  memo cells of the run before (\<open>None\<close> when the component mounts). The body of
  \<^verbatim>\<open>handleLargerSelectionArea\<close> reads the variable \<^verbatim>\<open>handleSelection\<close> of its scope
  when it is called, which by then holds what \<^verbatim>\<open>useCallback\<close> returned in that
  render; likewise \<^verbatim>\<open>handleClick\<close> and \<^verbatim>\<open>handleLargerSelectionArea\<close>.
\<close>

definition render :: "Props \<Rightarrow> ResourceListContextType \<Rightarrow> Callbacks option \<Rightarrow> Callbacks" where
  "render p c prev =
     (let selected = isSelected p c;
          hBlur = useCallback \<lparr>hb_onClick = onClick_scope p\<rparr> ()
                    (map_option cb_handleBlur prev);
          hSelection = useCallback
                    \<lparr>hs_id = id_prop p, hs_onSelectionChange = onSelectionChange c\<rparr>
                    (id_prop p, onSelectionChange c)
                    (map_option cb_handleSelection prev);
          hLarger = useCallback
                    \<lparr>la_selected = selected, la_handleSelection = fst hSelection\<rparr>
                    selected
                    (map_option cb_handleLargerSelectionArea prev);
          hClick = useCallback
                    \<lparr>hc_selectMode = selectMode c, hc_onClick = onClick_scope p,
                     hc_url = url p, hc_id = id_prop p,
                     hc_handleLargerSelectionArea = fst hLarger\<rparr>
                    (selectMode c, onClick_scope p, url p)
                    (map_option cb_handleClick prev);
          hKeypress = useCallback
                    \<lparr>hk_selectMode = selectMode c, hk_onClick = onClick_scope p\<rparr>
                    (selectMode c)
                    (map_option cb_handleKeypress prev)
      in \<lparr>cb_handleBlur = hBlur, cb_handleLargerSelectionArea = hLarger,
          cb_handleSelection = hSelection, cb_handleClick = hClick,
          cb_handleKeypress = hKeypress\<rparr>)"

fun renders :: "(Props \<times> ResourceListContextType) list \<Rightarrow> Callbacks option \<Rightarrow> Callbacks option"
  where
  "renders [] prev = prev"
| "renders ((p, c) # rs) prev = renders rs (Some (render p c prev))"

definition rendered ::
    "(Props \<times> ResourceListContextType) list \<Rightarrow> Props \<Rightarrow> ResourceListContextType \<Rightarrow> Callbacks"
  where
  "rendered rs p c = render p c (renders rs None)"
  \<comment> \<open>the callbacks of the latest render, with props \<open>p\<close> and context \<open>c\<close>, of a component
      that was mounted and rendered before with the props and contexts \<open>rs\<close>\<close>

subsection \<open>Markup of the shortcut actions\<close>

datatype ActionsMarkup =
  ActionsMarkup (segmented: bool) (plain: bool) (buttonsFrom: "DisableableAction list")
  \<comment> \<open>\<^verbatim>\<open>div.Actions\<close> around a \<^verbatim>\<open>ButtonGroup\<close> of \<^verbatim>\<open>buttonsFrom(shortcutActions, ...)\<close>\<close>

datatype DisclosureMarkup =
  DisclosureMarkup (active: bool) (items: "DisableableAction list")
  \<comment> \<open>\<^verbatim>\<open>div.Disclosure\<close> around a \<^verbatim>\<open>Popover\<close> with its activator \<^verbatim>\<open>Button\<close> and an
      \<^verbatim>\<open>ActionList\<close>\<close>

definition actionsMarkup :: "Props \<Rightarrow> ResourceListContextType \<Rightarrow> ActionsMarkup option" where
  "actionsMarkup p c =
     (case shortcutActions p of
        None \<Rightarrow> None
      | Some acts \<Rightarrow>
          if loading c then None
          else if persistActions_scope p then Some (ActionsMarkup False True acts)
          else Some (ActionsMarkup True False acts))"

definition disclosureMarkup ::
    "Props \<Rightarrow> ResourceListContextType \<Rightarrow> State \<Rightarrow> DisclosureMarkup option" where
  "disclosureMarkup p c s =
     (case shortcutActions p of
        None \<Rightarrow> None
      | Some acts \<Rightarrow>
          if loading c then None
          else if persistActions_scope p then Some (DisclosureMarkup (actionsMenuVisible s) acts)
          else None)"

subsection \<open>A row, a list and a DOM to run the handlers on\<close>

text \<open>
  A navigation row with id \<^verbatim>\<open>a\<close> and no \<^verbatim>\<open>onClick\<close>; a list that is selectable,
  not in select mode, with a selection callback and nothing selected; a DOM whose root
  is element 0, holding the row's own link, the anchor 1, and one more element 2.
\<close>

definition ex_row :: Props where
  "ex_row = \<lparr>id_prop = Some ''a'', url = Some ''/a'', onClick = None,
             shortcutActions = None, persistActions = None\<rparr>"

definition ex_list :: ResourceListContextType where
  "ex_list = \<lparr>selectable = True, selectMode = False, loading = False,
              onSelectionChange = Some 7, selectedItems = Some (SelectedIds [])\<rparr>"

definition ex_dom :: Dom where
  "ex_dom = \<lparr>node_current = Some 0, querySelector_a = Some 1,
             subtree = [0, 1, 2],
             tagName = (\<lambda>n. if n = 1 then ''A'' else ''DIV''),
             accessible = Some 1\<rparr>"

subsection \<open>What a memo cell keeps\<close>

text \<open>
  A memo cell pairs a callback with the dependencies of the render that created it, and
  the callback closed over those very values: \<open>consistent\<close> says so for the cells
  whose dependencies are not empty. Every render keeps it.
\<close>

definition consistent :: "Callbacks \<Rightarrow> bool" where
  "consistent m =
     (snd (cb_handleSelection m) =
        (hs_id (fst (cb_handleSelection m)), hs_onSelectionChange (fst (cb_handleSelection m)))
      \<and> snd (cb_handleLargerSelectionArea m) = la_selected (fst (cb_handleLargerSelectionArea m))
      \<and> snd (cb_handleClick m) =
          (hc_selectMode (fst (cb_handleClick m)), hc_onClick (fst (cb_handleClick m)),
           hc_url (fst (cb_handleClick m)))
      \<and> snd (cb_handleKeypress m) = hk_selectMode (fst (cb_handleKeypress m)))"

definition consistent_opt :: "Callbacks option \<Rightarrow> bool" where
  "consistent_opt prev = (case prev of None \<Rightarrow> True | Some m \<Rightarrow> consistent m)"

definition keypress_from :: "callback set \<Rightarrow> Callbacks option \<Rightarrow> bool" where
  "keypress_from A prev =
     (case prev of None \<Rightarrow> True | Some m \<Rightarrow> hk_onClick (fst (cb_handleKeypress m)) \<in> A)"

section \<open>Lemmas on rendering\<close>

lemma toLowerCase_eq_a: "(toLowerCase t = ''a'') = (t = ''a'' \<or> t = ''A'')"
proof -
  have one: "((if (65::nat) \<le> of_char c \<and> of_char c \<le> (90::nat)
              then char_of (of_char c + (32::nat)) else c) = CHR ''a'')
             = (c = CHR ''a'' \<or> c = CHR ''A'')" for c :: char
  proof (cases "(65::nat) \<le> of_char c \<and> of_char c \<le> (90::nat)")
    case True
    have "(char_of (of_char c + (32::nat)) = CHR ''a'')
          = (of_char (char_of (of_char c + (32::nat))) = (of_char (CHR ''a'') :: nat))"
      by (metis of_char_eq_iff)
    also have "\<dots> = ((of_char c + 32 :: nat) = 97)"
      using True by (simp add: of_char_of)
    also have "\<dots> = ((of_char c :: nat) = of_char CHR ''A'')"
      by auto
    also have "\<dots> = (c = CHR ''A'')"
      by (simp only: of_char_eq_iff)
    finally show ?thesis using True by auto
  next
    case False
    then show ?thesis by auto
  qed
  show ?thesis
    by (cases t; cases "tl t") (auto simp: toLowerCase_def one)
qed

lemma render_consistent: "consistent_opt prev \<Longrightarrow> consistent (render p c prev)"
  by (cases prev)
     (auto simp: consistent_opt_def consistent_def render_def useCallback_def Let_def
           split: prod.splits)

lemma renders_consistent: "consistent_opt prev \<Longrightarrow> consistent_opt (renders rs prev)"
proof (induction rs arbitrary: prev)
  case Nil
  then show ?case by simp
next
  case (Cons r rs)
  obtain p c where r: "r = (p, c)" by (cases r)
  have "consistent_opt (Some (render p c prev))"
    using Cons.prems by (simp add: consistent_opt_def render_consistent)
  then show ?case using Cons.IH r by simp
qed

lemma rendered_consistent: "consistent (rendered rs p c)"
  unfolding rendered_def
  by (rule render_consistent, rule renders_consistent) (simp add: consistent_opt_def)

lemma cb_handleSelection_render:
  "consistent_opt prev \<Longrightarrow>
   fst (cb_handleSelection (render p c prev)) =
     \<lparr>hs_id = id_prop p, hs_onSelectionChange = onSelectionChange c\<rparr>"
  by (cases prev)
     (auto simp: consistent_opt_def consistent_def render_def useCallback_def Let_def
           split: prod.splits)

lemma rendered_handleSelection:
  "fst (cb_handleSelection (rendered rs p c)) =
     \<lparr>hs_id = id_prop p, hs_onSelectionChange = onSelectionChange c\<rparr>"
  unfolding rendered_def
  by (rule cb_handleSelection_render, rule renders_consistent) (simp add: consistent_opt_def)

lemma cb_handleClick_render:
  "consistent_opt prev \<Longrightarrow>
   hc_selectMode (fst (cb_handleClick (render p c prev))) = selectMode c \<and>
   hc_onClick (fst (cb_handleClick (render p c prev))) = onClick_scope p \<and>
   hc_url (fst (cb_handleClick (render p c prev))) = url p"
  by (cases prev)
     (auto simp: consistent_opt_def consistent_def render_def useCallback_def Let_def
           split: prod.splits)

lemma rendered_handleClick:
  "hc_selectMode (fst (cb_handleClick (rendered rs p c))) = selectMode c \<and>
   hc_onClick (fst (cb_handleClick (rendered rs p c))) = onClick_scope p \<and>
   hc_url (fst (cb_handleClick (rendered rs p c))) = url p"
  unfolding rendered_def
  by (rule cb_handleClick_render, rule renders_consistent) (simp add: consistent_opt_def)

lemma cb_handleKeypress_render:
  "consistent_opt prev \<Longrightarrow>
   hk_selectMode (fst (cb_handleKeypress (render p c prev))) = selectMode c"
  by (cases prev)
     (auto simp: consistent_opt_def consistent_def render_def useCallback_def Let_def
           split: prod.splits)

lemma rendered_handleKeypress_selectMode:
  "hk_selectMode (fst (cb_handleKeypress (rendered rs p c))) = selectMode c"
  unfolding rendered_def
  by (rule cb_handleKeypress_render, rule renders_consistent) (simp add: consistent_opt_def)

text \<open>The callback a \<^verbatim>\<open>handleKeypress\<close> closure holds was the \<^verbatim>\<open>onClick\<close> of some render.\<close>

lemma render_keypress_from:
  "keypress_from A prev \<Longrightarrow> onClick_scope p \<in> A \<Longrightarrow>
   hk_onClick (fst (cb_handleKeypress (render p c prev))) \<in> A"
  by (cases prev)
     (auto simp: keypress_from_def render_def useCallback_def Let_def split: prod.splits)

lemma renders_keypress_from:
  "keypress_from A prev \<Longrightarrow> onClick_scope ` fst ` set rs \<subseteq> A \<Longrightarrow>
   keypress_from A (renders rs prev)"
proof (induction rs arbitrary: prev)
  case Nil
  then show ?case by simp
next
  case (Cons r rs)
  obtain p c where r: "r = (p, c)" by (cases r)
  have "keypress_from A (Some (render p c prev))"
    using Cons.prems r by (simp add: keypress_from_def render_keypress_from)
  then show ?case using Cons.IH Cons.prems(2) r by simp
qed

lemma rendered_handleKeypress_onClick:
  "hk_onClick (fst (cb_handleKeypress (rendered rs p c)))
     \<in> onClick_scope ` fst ` set (rs @ [(p, c)])"
  unfolding rendered_def
  by (rule render_keypress_from, rule renders_keypress_from)
     (auto simp: keypress_from_def)

text \<open>With no dependencies, \<^verbatim>\<open>handleBlur\<close> stays the closure of the mount.\<close>

lemma renders_handleBlur:
  "map_option (hb_onClick \<circ> fst \<circ> cb_handleBlur) (renders rs (Some m))
     = Some (hb_onClick (fst (cb_handleBlur m)))"
proof (induction rs arbitrary: m)
  case Nil
  then show ?case by simp
next
  case (Cons r rs)
  obtain p c where r: "r = (p, c)" by (cases r)
  have "hb_onClick (fst (cb_handleBlur (render p c (Some m)))) = hb_onClick (fst (cb_handleBlur m))"
    by (simp add: render_def useCallback_def Let_def split: prod.splits)
  then show ?case using Cons.IH [of "render p c (Some m)"] r by simp
qed

lemma rendered_handleBlur:
  "hb_onClick (fst (cb_handleBlur (rendered rs p c))) = onClick_scope (fst (hd (rs @ [(p, c)])))"
proof (cases rs)
  case Nil
  then show ?thesis by (simp add: rendered_def render_def useCallback_def Let_def)
next
  case (Cons r rs')
  obtain p' c' where r: "r = (p', c')" by (cases r)
  obtain m where m: "renders rs' (Some (render p' c' None)) = Some m"
    and hb: "hb_onClick (fst (cb_handleBlur m)) = hb_onClick (fst (cb_handleBlur (render p' c' None)))"
    using renders_handleBlur [of rs' "render p' c' None"] by auto
  have "hb_onClick (fst (cb_handleBlur (render p c (Some m)))) = hb_onClick (fst (cb_handleBlur m))"
    by (simp add: render_def useCallback_def Let_def split: prod.splits)
  then show ?thesis
    using Cons r m hb by (simp add: rendered_def) (simp add: render_def useCallback_def Let_def)
qed

text \<open>
  A selection toggle never fails and never calls \<^verbatim>\<open>onClick\<close>; in select mode a click
  on the row is such a toggle, after \<^verbatim>\<open>stopPropagation\<close>. On the render that created
  the click handler the toggle negates that render's selection state.
\<close>

lemma handleSelection_total:
  "\<exists>fx s'. handleSelection f v s = Inr (fx, s') \<and> (\<forall>cb args. OnClick cb args \<notin> set fx)"
  by (cases "hs_onSelectionChange f")
     (auto simp: handleSelection_def call_onSelectionChange_def)

lemma handleClick_selectMode:
  assumes "selectMode c"
  shows "\<exists>fx s'. handleClick (fst (cb_handleClick (rendered rs p c))) d e s
                    = Inr (StopPropagation # fx, s')
                  \<and> (\<forall>cb args. OnClick cb args \<notin> set fx)"
proof -
  let ?f = "fst (cb_handleClick (rendered rs p c))"
  let ?l = "hc_handleLargerSelectionArea ?f"
  obtain fx s' where hs:
    "handleSelection (la_handleSelection ?l) (\<not> truthy (la_selected ?l)) s = Inr (fx, s')"
    "\<forall>cb args. OnClick cb args \<notin> set fx"
    using handleSelection_total by blast
  have "hc_selectMode ?f" using assms rendered_handleClick [of rs p c] by simp
  then have "handleClick ?f d e s = Inr (StopPropagation # fx, s')"
    by (simp add: handleClick_def handleLargerSelectionArea_def hs(1))
  then show ?thesis using hs(2) by blast
qed

lemma handleClick_selectMode_mounted:
  assumes "selectMode c" and "id_prop p = Some i" and "onSelectionChange c = Some g"
  shows "handleClick (fst (cb_handleClick (rendered [] p c))) d e s =
           Inr ([StopPropagation, OnSelectionChange g (\<not> truthy (isSelected p c)) (Some i)],
                s\<lparr>focused := True, focusedInner := True\<rparr>)"
  using assms
  by (simp add: rendered_def render_def useCallback_def Let_def handleClick_def
      handleLargerSelectionArea_def handleSelection_def call_onSelectionChange_def)

text \<open>
  What a keypress handler calls, for every history of renders; and the case of a row
  that never had an \<^verbatim>\<open>onClick\<close>.
\<close>

lemma handleKeypress_Enter_closure:
  assumes "key e = ''Enter''"
  shows "\<exists>cb. cb \<in> onClick_scope ` fst ` set (rs @ [(p, c)])
           \<and> ((\<forall>r \<in> set rs. onClick_scope (fst r) = onClick_scope p) \<longrightarrow> cb = onClick_scope p)
           \<and> handleKeypress (fst (cb_handleKeypress (rendered rs p c))) e s =
               (if selectMode c then ([], s) else ([OnClick cb []], s))"
proof -
  let ?f = "fst (cb_handleKeypress (rendered rs p c))"
  have call: "handleKeypress ?f e s =
      (if selectMode c then ([], s) else ([OnClick (hk_onClick ?f) []], s))"
    using assms by (simp add: handleKeypress_def rendered_handleKeypress_selectMode)
  have mem: "hk_onClick ?f \<in> onClick_scope ` fst ` set (rs @ [(p, c)])"
    by (rule rendered_handleKeypress_onClick)
  have "hk_onClick ?f = onClick_scope p"
    if "\<forall>r \<in> set rs. onClick_scope (fst r) = onClick_scope p"
    using mem that by auto
  then show ?thesis using call mem by blast
qed

lemma handleKeypress_Enter_never_onClick:
  assumes "\<forall>r \<in> set (rs @ [(p, c)]). onClick (fst r) = None"
    and "truthy_string (url p) = Some u"
    and "key e = ''Enter''"
    and "\<not> selectMode c"
  shows "handleKeypress (fst (cb_handleKeypress (rendered rs p c))) e s = ([OnClick Noop []], s)
         \<and> observable (fst (handleKeypress (fst (cb_handleKeypress (rendered rs p c))) e s)) = []
         \<and> WindowOpen u ''_blank''
               \<notin> set (fst (handleKeypress (fst (cb_handleKeypress (rendered rs p c))) e s))
         \<and> (\<forall>a. AnchorClick a
               \<notin> set (fst (handleKeypress (fst (cb_handleKeypress (rendered rs p c))) e s)))"
proof -
  let ?f = "fst (cb_handleKeypress (rendered rs p c))"
  have "onClick_scope ` fst ` set (rs @ [(p, c)]) \<subseteq> {Noop}"
    using assms(1) by (auto simp: onClick_scope_def)
  then have "hk_onClick ?f = Noop"
    using rendered_handleKeypress_onClick [of rs p c] by blast
  then have "handleKeypress ?f e s = ([OnClick Noop []], s)"
    using assms(3,4) by (simp add: handleKeypress_def rendered_handleKeypress_selectMode)
  then show ?thesis by (simp add: observable_def)
qed

text \<open>
  A row mounted without an \<^verbatim>\<open>onClick\<close> and given one later: \<^verbatim>\<open>handleBlur\<close> still
  compares as for a row without one, and a blur of the root node with the newly focused
  target inside leaves \<^verbatim>\<open>focusedInner\<close>.
\<close>

lemma handleBlur_stale_onClick:
  "handleBlur
     (fst (cb_handleBlur (rendered [(ex_row, ex_list)] (ex_row\<lparr>onClick := Some (Fn 3)\<rparr>) ex_list)))
     ex_dom \<lparr>focus_target = 0, relatedTarget = Some 2\<rparr>
     \<lparr>actionsMenuVisible = False, focused = True, focusedInner = False\<rparr>
   = \<lparr>actionsMenuVisible = False, focused = True, focusedInner = False\<rparr>"
  by (simp add: ex_row_def ex_list_def ex_dom_def rendered_def render_def useCallback_def
      Let_def handleBlur_def compareEventNode_def onClick_scope_def toLowerCase_eq_a
      contains_def isSelected_def includes_str_def)

lemmas ex_defs = ex_row_def ex_list_def ex_dom_def

section \<open>Properties\<close>

text \<open>
  C1. \<^verbatim>\<open>isSelected\<close> returns \<^verbatim>\<open>true\<close> exactly when \<^verbatim>\<open>selectedItems\<close> is the "all"
  sentinel, or is an array of ids of which the row's id is a member. With the sentinel
  the result is \<^verbatim>\<open>true\<close> for every id (also an unset one), whatever else the context
  holds.
\<close>

theorem isSelected_iff:
  "(isSelected p c = Some True) =
     (selectedItems c = Some SELECT_ALL_ITEMS \<or>
      (\<exists>xs i. selectedItems c = Some (SelectedIds xs) \<and> id_prop p = Some i \<and> i \<in> set xs))
   \<and> isSelected p (c\<lparr>selectedItems := Some SELECT_ALL_ITEMS\<rparr>) = Some True
   \<and> isSelected (p\<lparr>id_prop := Some j\<rparr>) (c\<lparr>selectedItems := Some (SelectedIds ys)\<rparr>)
       = Some (j \<in> set ys)"
  by (auto simp: isSelected_def includes_str_def
      split: option.splits ResourceListSelectedItems.splits)

text \<open>
  C2. A click that does not target the embedded anchor, on a row that is not in select
  mode and has a navigation \<^verbatim>\<open>url\<close> (a non-empty string, which is what \<^verbatim>\<open>url &&\<close>
  asks): with \<^verbatim>\<open>ctrlKey\<close> or \<^verbatim>\<open>metaKey\<close> set the handler calls
  \<^verbatim>\<open>window.open(url, '_blank')\<close> and simulates no anchor click; with neither set and an
  anchor in the subtree it calls \<^verbatim>\<open>anchor.click()\<close>. Before either, \<^verbatim>\<open>onClick\<close> is called
  with one argument when it is not \<^verbatim>\<open>noop\<close>. This holds after any earlier renders.
\<close>

theorem handleClick_navigates:
  assumes "\<not> selectMode c"
    and "truthy_string (url p) = Some u"
    and "anchor_of d \<noteq> Some (target e)"
  shows "\<exists>i. handleClick (fst (cb_handleClick (rendered rs p c))) d e s =
           Inr ((if onClick_scope p = Noop then [] else [OnClick (onClick_scope p) [i]])
                @ (if ctrlKey e \<or> metaKey e then [WindowOpen u ''_blank'']
                   else case anchor_of d of None \<Rightarrow> [] | Some a \<Rightarrow> [AnchorClick a]), s)"
proof -
  let ?f = "fst (cb_handleClick (rendered rs p c))"
  have f: "hc_selectMode ?f = selectMode c" "hc_onClick ?f = onClick_scope p" "hc_url ?f = url p"
    using rendered_handleClick [of rs p c] by simp_all
  have "handleClick ?f d e s =
           Inr ((if onClick_scope p = Noop then [] else [OnClick (onClick_scope p) [hc_id ?f]])
                @ (if ctrlKey e \<or> metaKey e then [WindowOpen u ''_blank'']
                   else case anchor_of d of None \<Rightarrow> [] | Some a \<Rightarrow> [AnchorClick a]), s)"
    unfolding handleClick_def Let_def f using assms
    by (cases "anchor_of d") simp_all
  then show ?thesis by (rule exI [where x = "hc_id ?f"])
qed

theorem handleClick_navigates_witness:
  "\<not> selectMode ex_list \<and> truthy_string (url ex_row) = Some ''/a''
   \<and> anchor_of ex_dom \<noteq> Some (target \<lparr>target = 2, ctrlKey = True, metaKey = False\<rparr>)
   \<and> handleClick (fst (cb_handleClick (rendered [] ex_row ex_list))) ex_dom
        \<lparr>target = 2, ctrlKey = True, metaKey = False\<rparr> initialState
       = Inr ([WindowOpen ''/a'' ''_blank''], initialState)
   \<and> handleClick (fst (cb_handleClick (rendered [] ex_row ex_list))) ex_dom
        \<lparr>target = 2, ctrlKey = False, metaKey = False\<rparr> initialState
       = Inr ([AnchorClick 1], initialState)"
  using handleClick_navigates [of ex_list ex_row "''/a''" ex_dom
      "\<lparr>target = 2, ctrlKey = True, metaKey = False\<rparr>" "[]" initialState]
    handleClick_navigates [of ex_list ex_row "''/a''" ex_dom
      "\<lparr>target = 2, ctrlKey = False, metaKey = False\<rparr>" "[]" initialState]
  by (simp add: ex_defs truthy_string_def onClick_scope_def anchor_of_def)

text \<open>
  C3. In select mode a click on the row stops propagation, calls no \<^verbatim>\<open>onClick\<close>
  (\<open>handleClick_selectMode\<close>) and calls \<^verbatim>\<open>select\<close>. The value it selects with is the
  negation of \<^verbatim>\<open>selected\<close> as the click handler's closure holds it, and
  \<^verbatim>\<open>handleClick\<close> is memoised on \<^verbatim>\<open>[selectMode, onClick, url]\<close> only. Here the row
  mounts unselected in select mode and is rendered again once it is selected: the
  click on the row still asks for \<^verbatim>\<open>onSelectionChange(true, 'a')\<close>, where the current
  selection state is \<^verbatim>\<open>true\<close>. The selection area's own handler, memoised on
  \<^verbatim>\<open>[selected]\<close>, asks for \<^verbatim>\<open>false\<close> in the same render.
\<close>

theorem handleClick_selectMode_stale:
  "isSelected ex_row (ex_list\<lparr>selectMode := True, selectedItems := Some (SelectedIds [''a''])\<rparr>)
     = Some True
   \<and> handleClick
        (fst (cb_handleClick
               (rendered [(ex_row, ex_list\<lparr>selectMode := True\<rparr>)] ex_row
                  (ex_list\<lparr>selectMode := True, selectedItems := Some (SelectedIds [''a''])\<rparr>))))
        ex_dom \<lparr>target = 2, ctrlKey = False, metaKey = False\<rparr> initialState
     = Inr ([StopPropagation, OnSelectionChange 7 True (Some ''a'')],
            \<lparr>actionsMenuVisible = False, focused = True, focusedInner = True\<rparr>)
   \<and> handleLargerSelectionArea
        (fst (cb_handleLargerSelectionArea
               (rendered [(ex_row, ex_list\<lparr>selectMode := True\<rparr>)] ex_row
                  (ex_list\<lparr>selectMode := True, selectedItems := Some (SelectedIds [''a''])\<rparr>))))
        \<lparr>target = 2, ctrlKey = False, metaKey = False\<rparr> initialState
     = Inr ([StopPropagation, OnSelectionChange 7 False (Some ''a'')],
            \<lparr>actionsMenuVisible = False, focused = True, focusedInner = True\<rparr>)"
  by (simp add: ex_defs rendered_def render_def useCallback_def Let_def handleClick_def
      handleLargerSelectionArea_def handleSelection_def call_onSelectionChange_def
      isSelected_def includes_str_def truthy_def onClick_scope_def initialState_def)

text \<open>
  C4, amended. For a row that has had an \<^verbatim>\<open>onClick\<close> in all of its renders or in
  none (\<^verbatim>\<open>handleBlur\<close> is memoised with no dependencies and keeps the mount's
  \<^verbatim>\<open>onClick\<close>), a blur on the row's subtree does this. When the blur target is the
  row's own link or button, that element's handler first sets \<^verbatim>\<open>focused\<close> and
  \<^verbatim>\<open>focusedInner\<close> to \<^verbatim>\<open>true\<close>. Then, when the newly focused target
  (\<^verbatim>\<open>relatedTarget\<close>) is outside the subtree or the root ref is unset, \<^verbatim>\<open>focused\<close> is
  set to \<^verbatim>\<open>false\<close> and \<^verbatim>\<open>focusedInner\<close> is left as it then is. Otherwise, when the blur
  target is an anchor element (row without \<^verbatim>\<open>onClick\<close>) or the root node (row with
  \<^verbatim>\<open>onClick\<close>), \<^verbatim>\<open>focusedInner\<close> is set to \<^verbatim>\<open>true\<close> and \<^verbatim>\<open>focused\<close> is left as it
  then is. Any other blur adds nothing.
\<close>

theorem dispatchBlur_cases:
  assumes "\<forall>r \<in> set rs. (onClick_scope (fst r) = Noop) = (onClick_scope p = Noop)"
  shows "dispatchBlur (fst (cb_handleBlur (rendered rs p c))) d e s =
           (let s1 = (if accessible d = Some (focus_target e)
                      then s\<lparr>focused := True, focusedInner := True\<rparr> else s)
            in if node_current d = None \<or> \<not> contains d (relatedTarget e)
               then s1\<lparr>focused := False\<rparr>
               else if (if onClick_scope p = Noop
                        then tagName d (focus_target e) = ''a'' \<or> tagName d (focus_target e) = ''A''
                        else node_current d = Some (focus_target e))
               then s1\<lparr>focusedInner := True\<rparr>
               else s1)"
proof -
  let ?f = "fst (cb_handleBlur (rendered rs p c))"
  have "hd (rs @ [(p, c)]) \<in> insert (p, c) (set rs)"
    by (cases rs) simp_all
  then have "(onClick_scope (fst (hd (rs @ [(p, c)]))) = Noop) = (onClick_scope p = Noop)"
    using assms by auto
  then have kind: "(hb_onClick ?f = Noop) = (onClick_scope p = Noop)"
    by (simp add: rendered_handleBlur)
  have blur: "handleBlur ?f d e t =
      (if node_current d = None \<or> \<not> contains d (relatedTarget e) then t\<lparr>focused := False\<rparr>
       else if (if onClick_scope p = Noop
                then tagName d (focus_target e) = ''a'' \<or> tagName d (focus_target e) = ''A''
                else node_current d = Some (focus_target e))
       then t\<lparr>focusedInner := True\<rparr>
       else t)" for t
    by (auto simp: handleBlur_def compareEventNode_def kind toLowerCase_eq_a Let_def)
  show ?thesis
    unfolding dispatchBlur_def blur handleFocusedBlur_def Let_def by simp
qed

theorem dispatchBlur_cases_witness:
  "list_all (\<lambda>r. (onClick_scope (fst r) = Noop) = (onClick_scope ex_row = Noop))
     [(ex_row, ex_list)]
   \<and> dispatchBlur (fst (cb_handleBlur (rendered [(ex_row, ex_list)] ex_row ex_list))) ex_dom
        \<lparr>focus_target = 1, relatedTarget = Some 2\<rparr>
        \<lparr>actionsMenuVisible = False, focused = True, focusedInner = False\<rparr>
       = \<lparr>actionsMenuVisible = False, focused = True, focusedInner = True\<rparr>
   \<and> dispatchBlur (fst (cb_handleBlur (rendered [(ex_row, ex_list)] ex_row ex_list))) ex_dom
        \<lparr>focus_target = 1, relatedTarget = None\<rparr>
        \<lparr>actionsMenuVisible = False, focused = True, focusedInner = False\<rparr>
       = \<lparr>actionsMenuVisible = False, focused = False, focusedInner = True\<rparr>
   \<and> dispatchBlur (fst (cb_handleBlur (rendered [(ex_row, ex_list)] ex_row ex_list))) ex_dom
        \<lparr>focus_target = 2, relatedTarget = None\<rparr>
        \<lparr>actionsMenuVisible = False, focused = True, focusedInner = False\<rparr>
       = \<lparr>actionsMenuVisible = False, focused = False, focusedInner = False\<rparr>"
  using dispatchBlur_cases [of "[(ex_row, ex_list)]" ex_row ex_list ex_dom
      "\<lparr>focus_target = 1, relatedTarget = Some 2\<rparr>"
      "\<lparr>actionsMenuVisible = False, focused = True, focusedInner = False\<rparr>"]
    dispatchBlur_cases [of "[(ex_row, ex_list)]" ex_row ex_list ex_dom
      "\<lparr>focus_target = 1, relatedTarget = None\<rparr>"
      "\<lparr>actionsMenuVisible = False, focused = True, focusedInner = False\<rparr>"]
    dispatchBlur_cases [of "[(ex_row, ex_list)]" ex_row ex_list ex_dom
      "\<lparr>focus_target = 2, relatedTarget = None\<rparr>"
      "\<lparr>actionsMenuVisible = False, focused = True, focusedInner = False\<rparr>"]
  by (simp add: ex_defs onClick_scope_def contains_def)

text \<open>
  C4 as it is written fails when focus leaves the row from its own link. The link has
  focus (\<^verbatim>\<open>focused\<close> is \<^verbatim>\<open>true\<close>, \<^verbatim>\<open>focusedInner\<close> is \<^verbatim>\<open>false\<close>, as
  \<^verbatim>\<open>handleAnchorFocus\<close> left them); the newly focused element 9 is outside the subtree;
  the blur target is the anchor of a navigation row. The first half of the claim asks
  that \<^verbatim>\<open>focusedInner\<close> be left unchanged, the second that \<^verbatim>\<open>focused\<close> be left
  unchanged. The blur ends with \<^verbatim>\<open>focused\<close> \<^verbatim>\<open>false\<close> and \<^verbatim>\<open>focusedInner\<close> \<^verbatim>\<open>true\<close>:
  both have changed.
\<close>

theorem dispatchBlur_leaving_link_counterexample:
  "handleAnchorFocus initialState
     = \<lparr>actionsMenuVisible = False, focused = True, focusedInner = False\<rparr>
   \<and> onClick_scope ex_row = Noop
   \<and> toLowerCase (tagName ex_dom (focus_target \<lparr>focus_target = 1, relatedTarget = Some 9\<rparr>)) = ''a''
   \<and> \<not> contains ex_dom (relatedTarget \<lparr>focus_target = 1, relatedTarget = Some 9\<rparr>)
   \<and> dispatchBlur (fst (cb_handleBlur (rendered [] ex_row ex_list))) ex_dom
        \<lparr>focus_target = 1, relatedTarget = Some 9\<rparr> (handleAnchorFocus initialState)
       = \<lparr>actionsMenuVisible = False, focused = False, focusedInner = True\<rparr>"
  by (simp add: ex_defs rendered_def render_def useCallback_def Let_def dispatchBlur_def
      handleBlur_def handleFocusedBlur_def handleAnchorFocus_def initialState_def
      compareEventNode_def onClick_scope_def toLowerCase_eq_a contains_def)

text \<open>
  C5, amended. When \<^verbatim>\<open>shortcutActions\<close> is absent (\<^verbatim>\<open>undefined\<close>) or \<^verbatim>\<open>loading\<close> is
  true, neither the actions markup nor the disclosure markup is produced, whatever
  \<^verbatim>\<open>actionsMenuVisible\<close> is.
\<close>

theorem no_actions_markup:
  assumes "shortcutActions p = None \<or> loading c"
  shows "actionsMarkup p c = None \<and> disclosureMarkup p c s = None"
  using assms by (auto simp: actionsMarkup_def disclosureMarkup_def split: option.splits)

theorem no_actions_markup_witness:
  "(shortcutActions ex_row = None \<or> loading ex_list)
   \<and> actionsMarkup ex_row ex_list = None
   \<and> disclosureMarkup ex_row ex_list (handleActionsClick initialState) = None
   \<and> (shortcutActions (ex_row\<lparr>shortcutActions := Some [Action ''Edit'' False]\<rparr>) = None
        \<or> loading (ex_list\<lparr>loading := True\<rparr>))
   \<and> actionsMarkup (ex_row\<lparr>shortcutActions := Some [Action ''Edit'' False]\<rparr>)
        (ex_list\<lparr>loading := True\<rparr>) = None"
  using no_actions_markup [of ex_row ex_list "handleActionsClick initialState"]
    no_actions_markup [of "ex_row\<lparr>shortcutActions := Some [Action ''Edit'' False]\<rparr>"
      "ex_list\<lparr>loading := True\<rparr>" initialState]
  by (simp add: ex_defs)

text \<open>
  An empty array is truthy, so \<^verbatim>\<open>shortcutActions && !loading\<close> lets it through: with
  \<^verbatim>\<open>shortcutActions = []\<close> and \<^verbatim>\<open>persistActions\<close> the row gets both the actions
  wrapper (around an empty button group) and the disclosure popover.
\<close>

theorem empty_shortcutActions_counterexample:
  "shortcutActions (ex_row\<lparr>shortcutActions := Some [], persistActions := Some True\<rparr>) = Some []
   \<and> actionsMarkup (ex_row\<lparr>shortcutActions := Some [], persistActions := Some True\<rparr>) ex_list
       = Some (ActionsMarkup False True [])
   \<and> disclosureMarkup (ex_row\<lparr>shortcutActions := Some [], persistActions := Some True\<rparr>) ex_list
        initialState = Some (DisclosureMarkup False [])"
  by (simp add: ex_defs actionsMarkup_def disclosureMarkup_def persistActions_scope_def
      initialState_def)

text \<open>
  C6. With an id and an \<^verbatim>\<open>onSelectionChange\<close> callback, \<^verbatim>\<open>select(true)\<close> calls
  \<^verbatim>\<open>onSelectionChange(true, id)\<close> once and nothing else, and leaves \<^verbatim>\<open>focused\<close> and
  \<^verbatim>\<open>focusedInner\<close> both \<^verbatim>\<open>true\<close>. This holds after any earlier renders.
\<close>

theorem handleSelection_selects:
  assumes "id_prop p = Some i" and "onSelectionChange c = Some g"
  shows "handleSelection (fst (cb_handleSelection (rendered rs p c))) True s =
           Inr ([OnSelectionChange g True (Some i)], s\<lparr>focused := True, focusedInner := True\<rparr>)"
  using assms
  by (simp add: rendered_handleSelection handleSelection_def call_onSelectionChange_def)

theorem handleSelection_selects_witness:
  "id_prop ex_row = Some ''a'' \<and> onSelectionChange ex_list = Some 7
   \<and> handleSelection (fst (cb_handleSelection (rendered [] ex_row ex_list))) True initialState =
       Inr ([OnSelectionChange 7 True (Some ''a'')],
            \<lparr>actionsMenuVisible = False, focused = True, focusedInner = True\<rparr>)"
  using handleSelection_selects [of ex_row "''a''" ex_list 7 "[]" initialState]
  by (simp add: ex_defs initialState_def)

text \<open>
  C7. Without an id, or without an \<^verbatim>\<open>onSelectionChange\<close> callback, \<^verbatim>\<open>select(value)\<close>
  returns normally, calls nothing and leaves the state as it was, for either value.
\<close>

theorem handleSelection_noop:
  assumes "id_prop p = None \<or> onSelectionChange c = None"
  shows "handleSelection (fst (cb_handleSelection (rendered rs p c))) v s = Inr ([], s)"
  using assms by (auto simp: rendered_handleSelection handleSelection_def)

theorem handleSelection_noop_witness:
  "(id_prop (ex_row\<lparr>id_prop := None\<rparr>) = None \<or> onSelectionChange ex_list = None)
   \<and> handleSelection (fst (cb_handleSelection (rendered [] (ex_row\<lparr>id_prop := None\<rparr>) ex_list)))
        True initialState = Inr ([], initialState)
   \<and> handleSelection
        (fst (cb_handleSelection (rendered [] ex_row (ex_list\<lparr>onSelectionChange := None\<rparr>))))
        False initialState = Inr ([], initialState)"
  using handleSelection_noop [of "ex_row\<lparr>id_prop := None\<rparr>" ex_list "[]" True initialState]
    handleSelection_noop [of ex_row "ex_list\<lparr>onSelectionChange := None\<rparr>" "[]" False initialState]
  by (simp add: ex_defs)

text \<open>
  C8. On \<^verbatim>\<open>Enter\<close> the handler calls nothing in select mode, and out of select mode it
  makes one call with an empty argument list (\<open>handleKeypress_Enter_closure\<close>). But
  \<^verbatim>\<open>handleKeypress\<close> is memoised on \<^verbatim>\<open>[selectMode]\<close> only, and the function it calls is
  the \<^verbatim>\<open>onClick\<close> of the render that created it. Here the row mounts without an
  \<^verbatim>\<open>onClick\<close> and is rendered again with the callback \<open>Fn 3\<close>: \<^verbatim>\<open>Enter\<close> calls
  \<^verbatim>\<open>noop\<close> and the row's callback is not invoked. Mounted with \<open>Fn 3\<close> and rendered
  again with \<open>Fn 4\<close>, it calls \<open>Fn 3\<close>. A click on the row in the same render calls
  the current callback, since \<^verbatim>\<open>handleClick\<close> has \<^verbatim>\<open>onClick\<close> among its dependencies.
\<close>

theorem handleKeypress_stale_onClick:
  "handleKeypress
     (fst (cb_handleKeypress
            (rendered [(ex_row, ex_list)] (ex_row\<lparr>onClick := Some (Fn 3)\<rparr>) ex_list)))
     \<lparr>key = ''Enter''\<rparr> initialState
     = ([OnClick Noop []], initialState)
   \<and> handleKeypress
     (fst (cb_handleKeypress
            (rendered [(ex_row\<lparr>onClick := Some (Fn 3)\<rparr>, ex_list)]
               (ex_row\<lparr>onClick := Some (Fn 4)\<rparr>) ex_list)))
     \<lparr>key = ''Enter''\<rparr> initialState
     = ([OnClick (Fn 3) []], initialState)
   \<and> handleClick
     (fst (cb_handleClick
            (rendered [(ex_row, ex_list)] (ex_row\<lparr>onClick := Some (Fn 3)\<rparr>) ex_list)))
     ex_dom \<lparr>target = 2, ctrlKey = False, metaKey = False\<rparr> initialState
     = Inr ([OnClick (Fn 3) [Some ''a''], AnchorClick 1], initialState)"
  by (simp add: ex_defs rendered_def render_def useCallback_def Let_def handleKeypress_def
      handleClick_def anchor_of_def truthy_string_def isSelected_def includes_str_def
      onClick_scope_def)


text \<open>
  C10. A row that has a \<^verbatim>\<open>url\<close> and was never given an \<^verbatim>\<open>onClick\<close> calls only
  \<^verbatim>\<open>noop\<close> on \<^verbatim>\<open>Enter\<close> (\<open>handleKeypress_Enter_never_onClick\<close>). A row that is
  configured with a \<^verbatim>\<open>url\<close> and no \<^verbatim>\<open>onClick\<close> now, but was mounted with the callback
  \<open>Fn 3\<close>, still calls \<open>Fn 3\<close> on \<^verbatim>\<open>Enter\<close> out of select mode: the handler is
  the mount's closure, memoised on \<^verbatim>\<open>[selectMode]\<close>. That call is an effect the caller
  can see.
\<close>

theorem handleKeypress_url_row_stale_callback:
  "url ex_row = Some ''/a'' \<and> onClick ex_row = None \<and> \<not> selectMode ex_list
   \<and> handleKeypress
        (fst (cb_handleKeypress
               (rendered [(ex_row\<lparr>onClick := Some (Fn 3)\<rparr>, ex_list)] ex_row ex_list)))
        \<lparr>key = ''Enter''\<rparr> initialState
       = ([OnClick (Fn 3) []], initialState)
   \<and> observable
        (fst (handleKeypress
               (fst (cb_handleKeypress
                      (rendered [(ex_row\<lparr>onClick := Some (Fn 3)\<rparr>, ex_list)] ex_row ex_list)))
               \<lparr>key = ''Enter''\<rparr> initialState))
       = [OnClick (Fn 3) []]"
  by (simp add: ex_defs rendered_def render_def useCallback_def Let_def handleKeypress_def
      isSelected_def includes_str_def onClick_scope_def observable_def)

end
